theory Spec2Isabelle
  imports Complex_Main "HOL-Library.Word"
begin

text \<open>
  The form generator asks a text model for a form description, recovers a JSON value from
  the answer (generateFormInternal), checks its structure, and lets the user export the
  schema to a file and import it again (handleExport, handleFileChange,
  validateFormSchema). This theory embeds those functions, together with models of the
  string operations, of \<open>JSON.parse\<close> and of \<open>JSON.stringify\<close> they rest on, and
  proves what the specification says about them, or what holds in its place.
\<close>

section \<open>JavaScript strings\<close>

text \<open>
  An ECMAScript string is a finite sequence of 16-bit code units; \<open>length\<close>,
  \<open>indexOf\<close>, \<open>substring\<close> and indexing all count code units. \<open>js\<close> embeds an
  Isabelle literal (one code unit per character) so that the texts of the source can be
  written down as they stand there.
\<close>

type_synonym jschar = "16 word"
type_synonym jsstring = "jschar list"

definition js :: "string \<Rightarrow> jsstring" where
  "js s = map of_char s"

definition LBRACE :: jschar where "LBRACE = 0x7B"
definition RBRACE :: jschar where "RBRACE = 0x7D"

text \<open>
  The code units that \<open>String.prototype.trim\<close> removes and that the regular expression
  class \<open>\s\<close> matches: ECMAScript's WhiteSpace and LineTerminator productions.
\<close>

definition isWhiteSpace :: "jschar \<Rightarrow> bool" where
  "isWhiteSpace c =
     (c = 0x09 \<or> c = 0x0A \<or> c = 0x0B \<or> c = 0x0C \<or> c = 0x0D \<or> c = 0x20 \<or>
      c = 0xA0 \<or> c = 0x1680 \<or> (0x2000 \<le> c \<and> c \<le> 0x200A) \<or> c = 0x2028 \<or>
      c = 0x2029 \<or> c = 0x202F \<or> c = 0x205F \<or> c = 0x3000 \<or> c = 0xFEFF)"

definition trim :: "jsstring \<Rightarrow> jsstring" where
  "trim s = rev (dropWhile isWhiteSpace (rev (dropWhile isWhiteSpace s)))"

definition startsWith :: "jsstring \<Rightarrow> jsstring \<Rightarrow> bool" where
  "startsWith s p = (take (length p) s = p)"

definition endsWith :: "jsstring \<Rightarrow> jsstring \<Rightarrow> bool" where
  "endsWith s p = (length p \<le> length s \<and> drop (length s - length p) s = p)"

text \<open>\<open>s.indexOf(c)\<close> for a one-unit pattern: the first index, or \<open>-1\<close>.\<close>

fun indexOf :: "jsstring \<Rightarrow> jschar \<Rightarrow> int" where
  "indexOf [] c = -1"
| "indexOf (x # xs) c =
     (if x = c then 0 else (let i = indexOf xs c in if i = -1 then -1 else i + 1))"

text \<open>\<open>s.lastIndexOf(c)\<close> for a one-unit pattern: the last index, or \<open>-1\<close>.\<close>

fun lastIndexOf :: "jsstring \<Rightarrow> jschar \<Rightarrow> int" where
  "lastIndexOf [] c = -1"
| "lastIndexOf (x # xs) c =
     (let i = lastIndexOf xs c in
      if i \<noteq> -1 then i + 1 else if x = c then 0 else -1)"

text \<open>
  \<open>s.substring(a, b)\<close>: both indices are clamped to \<open>[0, length]\<close> and swapped when
  they come in the wrong order.
\<close>

definition substring :: "jsstring \<Rightarrow> int \<Rightarrow> int \<Rightarrow> jsstring" where
  "substring s a b =
     (let n = int (length s);
          a' = min (max a 0) n;
          b' = min (max b 0) n;
          lo = min a' b';
          hi = max a' b'
      in take (nat (hi - lo)) (drop (nat lo) s))"

section \<open>Decoded JSON values and exceptions\<close>

text \<open>
  The values \<open>JSON.parse\<close> produces. An object keeps its members in an association
  list, in the order in which the text names them (that property enumeration moves
  integer-like names to the front is not modelled); a property read finds the member by
  \<open>map_of\<close>. Numbers are kept as exact rationals (the rounding of a literal to an IEEE
  double is not part of this model); the only thing the validators ask of a number is
  whether it is zero.
\<close>

datatype json =
    JNull
  | JBool bool
  | JNum rat
  | JStr jsstring
  | JArr "json list"
  | JObj "(jsstring \<times> json) list"

text \<open>What a \<open>throw\<close> carries: the three error classes that occur, with their message.\<close>

datatype exn =
    SyntaxError jsstring
  | TypeError jsstring
  | Error jsstring

fun message :: "exn \<Rightarrow> jsstring" where
  "message (SyntaxError m) = m"
| "message (TypeError m) = m"
| "message (Error m) = m"

text \<open>
  A computation either throws (\<open>Inl\<close>) or returns (\<open>Inr\<close>). The platform's
  \<open>JSON.parse\<close> is such a computation from text to value; the functions below take it
  as the parameter \<open>parse\<close>.
\<close>

type_synonym 'a comp = "exn + 'a"
type_synonym parser = "jsstring \<Rightarrow> json comp"

section \<open>A model of JSON.parse\<close>

definition isJsonSpace :: "jschar \<Rightarrow> bool" where
  "isJsonSpace c = (c = 0x20 \<or> c = 0x09 \<or> c = 0x0A \<or> c = 0x0D)"

definition isDigit :: "jschar \<Rightarrow> bool" where
  "isDigit c = (0x30 \<le> c \<and> c \<le> 0x39)"

definition digitVal :: "jschar \<Rightarrow> nat" where
  "digitVal c = unat c - 48"

definition hexVal :: "jschar \<Rightarrow> nat option" where
  "hexVal c =
     (if 0x30 \<le> c \<and> c \<le> 0x39 then Some (unat c - 48)
      else if 0x41 \<le> c \<and> c \<le> 0x46 then Some (unat c - 55)
      else if 0x61 \<le> c \<and> c \<le> 0x66 then Some (unat c - 87)
      else None)"

datatype token =
    TLBrace | TRBrace | TLBracket | TRBracket | TColon | TComma
  | TString jsstring | TNumber rat | TTrue | TFalse | TNull
  | TBad

text \<open>
  Lexing functions return either the number of code units that were still unread at the
  first code unit that cannot continue a JSON text (\<open>Inl\<close>; 0 at the end of the text),
  or what they read and the rest of the text.
\<close>

fun lexHex :: "nat \<Rightarrow> nat \<Rightarrow> jsstring \<Rightarrow> nat + (jschar \<times> jsstring)" where
  "lexHex 0 acc cs = Inr (of_nat acc, cs)"
| "lexHex (Suc n) acc [] = Inl 0"
| "lexHex (Suc n) acc (c # cs) =
     (case hexVal c of
        None \<Rightarrow> Inl (length (c # cs))
      | Some h \<Rightarrow> lexHex n (16 * acc + h) cs)"

definition simpleEscape :: "jschar \<Rightarrow> jschar option" where
  "simpleEscape e =
     (if e = 0x22 then Some 0x22
      else if e = 0x5C then Some 0x5C
      else if e = 0x2F then Some 0x2F
      else if e = 0x62 then Some 0x08
      else if e = 0x66 then Some 0x0C
      else if e = 0x6E then Some 0x0A
      else if e = 0x72 then Some 0x0D
      else if e = 0x74 then Some 0x09
      else None)"

fun consResult :: "jschar \<Rightarrow> nat + (jsstring \<times> jsstring) \<Rightarrow> nat + (jsstring \<times> jsstring)" where
  "consResult u (Inl n) = Inl n"
| "consResult u (Inr (str, rest)) = Inr (u # str, rest)"

function lexString :: "jsstring \<Rightarrow> nat + (jsstring \<times> jsstring)" where
  "lexString [] = Inl 0"
| "lexString (c # cs) =
     (if c = 0x22 then Inr ([], cs)
      else if c = 0x5C then
        (case cs of
           [] \<Rightarrow> Inl 0
         | e # cs1 \<Rightarrow>
             if e = 0x75 then
               (case lexHex 4 0 cs1 of
                  Inl n \<Rightarrow> Inl n
                | Inr (u, cs2) \<Rightarrow> consResult u (lexString cs2))
             else
               (case simpleEscape e of
                  None \<Rightarrow> Inl (length (e # cs1))
                | Some u \<Rightarrow> consResult u (lexString cs1)))
      else if c < 0x20 then Inl (length (c # cs))
      else consResult c (lexString cs))"
  by pat_completeness auto

lemma lexHex_length: "lexHex n acc cs = Inr (u, rest) \<Longrightarrow> length rest \<le> length cs"
  by (induction n acc cs rule: lexHex.induct) (auto split: option.splits)

termination lexString
  by (relation "measure length") (auto dest: lexHex_length)

lemma consResult_Inr:
  "consResult u r = Inr (str, rest) \<Longrightarrow> \<exists>str'. r = Inr (str', rest) \<and> str = u # str'"
  by (cases r) auto

lemma lexString_length: "lexString cs = Inr (str, rest) \<Longrightarrow> length rest < length cs"
proof (induction cs arbitrary: str rest rule: lexString.induct)
  case 1 then show ?case by simp
next
  case (2 c cs)
  then show ?case
    by (fastforce split: if_splits list.splits sum.splits option.splits prod.splits
        dest!: consResult_Inr dest: lexHex_length)
qed

text \<open>A literal name (\<open>true\<close>, \<open>false\<close>, \<open>null\<close>): the text must continue with it.\<close>

fun lexLiteral :: "jsstring \<Rightarrow> jsstring \<Rightarrow> nat + jsstring" where
  "lexLiteral [] cs = Inr cs"
| "lexLiteral (l # ls) [] = Inl 0"
| "lexLiteral (l # ls) (c # cs) = (if c = l then lexLiteral ls cs else Inl (length (c # cs)))"

lemma lexLiteral_length: "lexLiteral ls cs = Inr rest \<Longrightarrow> length rest + length ls = length cs"
  by (induction ls cs rule: lexLiteral.induct) (auto split: if_splits)

text \<open>
  A number: \<open>-? (0 | [1-9][0-9]*) (. [0-9]+)? ([eE] [+-]? [0-9]+)?\<close>, read as far as it
  goes. Its value is the exact decimal.
\<close>

definition digitsVal :: "jsstring \<Rightarrow> nat" where
  "digitsVal ds = foldl (\<lambda>n d. 10 * n + digitVal d) 0 ds"

text \<open>The integer part: a single \<open>0\<close>, or a non-zero digit and the digits after it.\<close>

definition lexInt :: "jsstring \<Rightarrow> nat + (jsstring \<times> jsstring)" where
  "lexInt s =
     (case s of
        [] \<Rightarrow> Inl 0
      | d # ds \<Rightarrow>
          if d = 0x30 then Inr ([d], ds)
          else if isDigit d then Inr (takeWhile isDigit s, dropWhile isDigit s)
          else Inl (length s))"

text \<open>One or more digits, after \<open>.\<close> or after the exponent's sign.\<close>

definition lexDigits :: "jsstring \<Rightarrow> nat + (jsstring \<times> jsstring)" where
  "lexDigits s =
     (case s of
        [] \<Rightarrow> Inl 0
      | d # ds \<Rightarrow>
          if isDigit d then Inr (takeWhile isDigit s, dropWhile isDigit s)
          else Inl (length s))"

definition lexFraction :: "jsstring \<Rightarrow> nat + (jsstring \<times> jsstring)" where
  "lexFraction s =
     (case s of
        [] \<Rightarrow> Inr ([], s)
      | c # cs \<Rightarrow> if c = 0x2E then lexDigits cs else Inr ([], s))"

text \<open>The exponent: its value as an integer, 0 when there is none.\<close>

definition lexExponent :: "jsstring \<Rightarrow> nat + (int \<times> jsstring)" where
  "lexExponent s =
     (case s of
        [] \<Rightarrow> Inr (0, s)
      | c # cs \<Rightarrow>
          if c = 0x65 \<or> c = 0x45 then
            (case cs of
               [] \<Rightarrow> Inl 0
             | g # gs \<Rightarrow>
                 if g = 0x2D then
                   (case lexDigits gs of Inl n \<Rightarrow> Inl n
                    | Inr (ds, rest) \<Rightarrow> Inr (- int (digitsVal ds), rest))
                 else if g = 0x2B then
                   (case lexDigits gs of Inl n \<Rightarrow> Inl n
                    | Inr (ds, rest) \<Rightarrow> Inr (int (digitsVal ds), rest))
                 else
                   (case lexDigits cs of Inl n \<Rightarrow> Inl n
                    | Inr (ds, rest) \<Rightarrow> Inr (int (digitsVal ds), rest)))
          else Inr (0, s))"

definition pow10 :: "int \<Rightarrow> rat" where
  "pow10 e = (if e \<ge> 0 then 10 ^ nat e else 1 / 10 ^ nat (- e))"

definition decimalValue :: "bool \<Rightarrow> jsstring \<Rightarrow> jsstring \<Rightarrow> int \<Rightarrow> rat" where
  "decimalValue negative ip fp e =
     (let m = (of_nat (digitsVal ip) + of_nat (digitsVal fp) / 10 ^ length fp) * pow10 e
      in if negative then - m else m)"

definition lexUnsigned :: "bool \<Rightarrow> jsstring \<Rightarrow> nat + (rat \<times> jsstring)" where
  "lexUnsigned negative s =
     (case lexInt s of
        Inl n \<Rightarrow> Inl n
      | Inr (ip, s1) \<Rightarrow>
          (case lexFraction s1 of
             Inl n \<Rightarrow> Inl n
           | Inr (fp, s2) \<Rightarrow>
               (case lexExponent s2 of
                  Inl n \<Rightarrow> Inl n
                | Inr (e, s3) \<Rightarrow> Inr (decimalValue negative ip fp e, s3))))"

definition lexNumber :: "jsstring \<Rightarrow> nat + (rat \<times> jsstring)" where
  "lexNumber s =
     (case s of
        [] \<Rightarrow> Inl 0
      | c # cs \<Rightarrow> if c = 0x2D then lexUnsigned True cs else lexUnsigned False s)"

lemma lexDigits_length: "lexDigits s = Inr (ds, rest) \<Longrightarrow> length rest < length s"
  by (auto simp: lexDigits_def split: list.splits if_splits intro: le_imp_less_Suc length_dropWhile_le)

lemma lexInt_length: "lexInt s = Inr (ds, rest) \<Longrightarrow> length rest < length s"
  by (auto simp: lexInt_def split: list.splits if_splits intro: le_imp_less_Suc length_dropWhile_le)

lemma lexFraction_length: "lexFraction s = Inr (ds, rest) \<Longrightarrow> length rest \<le> length s"
  by (auto simp: lexFraction_def split: list.splits if_splits dest!: lexDigits_length)

lemma lexExponent_length: "lexExponent s = Inr (e, rest) \<Longrightarrow> length rest \<le> length s"
  by (auto simp: lexExponent_def split: list.splits if_splits sum.splits dest!: lexDigits_length)

lemma lexUnsigned_length: "lexUnsigned b s = Inr (r, rest) \<Longrightarrow> length rest < length s"
  by (auto simp: lexUnsigned_def split: sum.splits
      dest!: lexInt_length lexFraction_length lexExponent_length)

lemma lexNumber_length: "lexNumber s = Inr (r, rest) \<Longrightarrow> length rest < length s"
  by (auto simp: lexNumber_def split: list.splits if_splits dest!: lexUnsigned_length)

text \<open>
  The tokens of a text, each with the number of code units that were unread where it
  starts. A code unit that cannot continue a JSON text ends the list with \<open>TBad\<close>.
\<close>

function lexer :: "jsstring \<Rightarrow> (nat \<times> token) list" where
  "lexer [] = []"
| "lexer (c # cs) =
     (if isJsonSpace c then lexer cs
      else if c = 0x7B then (length (c # cs), TLBrace) # lexer cs
      else if c = 0x7D then (length (c # cs), TRBrace) # lexer cs
      else if c = 0x5B then (length (c # cs), TLBracket) # lexer cs
      else if c = 0x5D then (length (c # cs), TRBracket) # lexer cs
      else if c = 0x3A then (length (c # cs), TColon) # lexer cs
      else if c = 0x2C then (length (c # cs), TComma) # lexer cs
      else if c = 0x22 then
        (case lexString cs of
           Inl n \<Rightarrow> [(n, TBad)]
         | Inr (str, rest) \<Rightarrow> (length (c # cs), TString str) # lexer rest)
      else if c = 0x74 then
        (case lexLiteral (js ''rue'') cs of
           Inl n \<Rightarrow> [(n, TBad)]
         | Inr rest \<Rightarrow> (length (c # cs), TTrue) # lexer rest)
      else if c = 0x66 then
        (case lexLiteral (js ''alse'') cs of
           Inl n \<Rightarrow> [(n, TBad)]
         | Inr rest \<Rightarrow> (length (c # cs), TFalse) # lexer rest)
      else if c = 0x6E then
        (case lexLiteral (js ''ull'') cs of
           Inl n \<Rightarrow> [(n, TBad)]
         | Inr rest \<Rightarrow> (length (c # cs), TNull) # lexer rest)
      else if c = 0x2D \<or> isDigit c then
        (case lexNumber (c # cs) of
           Inl n \<Rightarrow> [(n, TBad)]
         | Inr (r, rest) \<Rightarrow> (length (c # cs), TNumber r) # lexer rest)
      else [(length (c # cs), TBad)])"
  by pat_completeness auto
termination
  by (relation "measure length")
     (auto dest!: lexString_length lexLiteral_length lexNumber_length)

text \<open>
  Property creation as \<open>JSON.parse\<close> does it: a repeated name overwrites the earlier
  value where it stands, a new name is added at the end.
\<close>

fun setMember :: "(jsstring \<times> json) list \<Rightarrow> jsstring \<Rightarrow> json \<Rightarrow> (jsstring \<times> json) list" where
  "setMember [] k v = [(k, v)]"
| "setMember ((k', v') # ms) k v =
     (if k' = k then (k, v) # ms else (k', v') # setMember ms k v)"

text \<open>
  The grammar is run over the tokens by a pushdown automaton. A frame is an array or an
  object under construction (\<open>FKey\<close>: an object whose next member has its name but not
  yet its value); \<open>expect\<close> says what may come next.
\<close>

datatype frame =
    FArr "json list"
  | FObj "(jsstring \<times> json) list"
  | FKey "(jsstring \<times> json) list" jsstring

datatype expect =
    ExpValue
  | ExpValueOrClose
  | ExpKeyOrClose
  | ExpKey
  | ExpColon
  | ExpCommaOrClose
  | ExpEnd json

text \<open>A finished value goes to the frame that waits for it, or ends the text.\<close>

fun deliver :: "json \<Rightarrow> frame list \<Rightarrow> (expect \<times> frame list) option" where
  "deliver v [] = Some (ExpEnd v, [])"
| "deliver v (FArr xs # st) = Some (ExpCommaOrClose, FArr (xs @ [v]) # st)"
| "deliver v (FKey ms k # st) = Some (ExpCommaOrClose, FObj (setMember ms k v) # st)"
| "deliver v (FObj ms # st) = None"

fun startValue :: "token \<Rightarrow> frame list \<Rightarrow> (expect \<times> frame list) option" where
  "startValue TLBrace st = Some (ExpKeyOrClose, FObj [] # st)"
| "startValue TLBracket st = Some (ExpValueOrClose, FArr [] # st)"
| "startValue (TString s) st = deliver (JStr s) st"
| "startValue (TNumber r) st = deliver (JNum r) st"
| "startValue TTrue st = deliver (JBool True) st"
| "startValue TFalse st = deliver (JBool False) st"
| "startValue TNull st = deliver JNull st"
| "startValue _ st = None"

fun closeFrame :: "token \<Rightarrow> frame list \<Rightarrow> (expect \<times> frame list) option" where
  "closeFrame TRBracket (FArr xs # st) = deliver (JArr xs) st"
| "closeFrame TRBrace (FObj ms # st) = deliver (JObj ms) st"
| "closeFrame _ _ = None"

fun startMember :: "token \<Rightarrow> frame list \<Rightarrow> (expect \<times> frame list) option" where
  "startMember (TString k) (FObj ms # st) = Some (ExpColon, FKey ms k # st)"
| "startMember _ _ = None"

fun afterValue :: "token \<Rightarrow> frame list \<Rightarrow> (expect \<times> frame list) option" where
  "afterValue TComma (FArr xs # st) = Some (ExpValue, FArr xs # st)"
| "afterValue TComma (FObj ms # st) = Some (ExpKey, FObj ms # st)"
| "afterValue t st = closeFrame t st"

fun step :: "expect \<Rightarrow> frame list \<Rightarrow> token \<Rightarrow> (expect \<times> frame list) option" where
  "step ExpValue st t = startValue t st"
| "step ExpValueOrClose st t = (if t = TRBracket then closeFrame t st else startValue t st)"
| "step ExpKeyOrClose st t = (if t = TRBrace then closeFrame t st else startMember t st)"
| "step ExpKey st t = startMember t st"
| "step ExpColon st t = (if t = TColon then Some (ExpValue, st) else None)"
| "step ExpCommaOrClose st t = afterValue t st"
| "step (ExpEnd v) st t = None"

text \<open>
  The run ends with the value, or with the number of tokens that were left when one did
  not fit (0 when the tokens ran out too early).
\<close>

fun run :: "expect \<Rightarrow> frame list \<Rightarrow> token list \<Rightarrow> nat + json" where
  "run (ExpEnd v) st [] = Inr v"
| "run e st [] = Inl 0"
| "run e st (t # ts) =
     (case step e st t of
        None \<Rightarrow> Inl (length (t # ts))
      | Some (e', st') \<Rightarrow> run e' st' ts)"

text \<open>
  Decoding a text: its value, or the number of code units that were unread at the token
  that did not fit (0 at the end of the text).
\<close>

definition JSON_decode :: "jsstring \<Rightarrow> nat + json" where
  "JSON_decode text =
     (let lexed = lexer text in
      case run ExpValue [] (map snd lexed) of
        Inl left \<Rightarrow> Inl (if left = 0 then 0 else fst (lexed ! (length lexed - left)))
      | Inr v \<Rightarrow> Inr v)"

text \<open>Decimal digits of a natural number.\<close>

definition digitChar :: "nat \<Rightarrow> jschar" where
  "digitChar d = of_nat (48 + d)"

fun decimal :: "nat \<Rightarrow> jsstring" where
  "decimal n = (if n < 10 then [digitChar n] else decimal (n div 10) @ [digitChar (n mod 10)])"

declare decimal.simps [simp del]

text \<open>
  The message of the SyntaxError. ECMAScript leaves its wording to the engine; this is
  the wording of V8 as shipped with Node.js up to version 18, which names the offending
  code unit and its position.
\<close>

definition syntaxErrorMessage :: "jsstring \<Rightarrow> nat \<Rightarrow> jsstring" where
  "syntaxErrorMessage text unread =
     (if unread = 0 then js ''Unexpected end of JSON input''
      else js ''Unexpected token '' @ take 1 (drop (length text - unread) text)
           @ js '' in JSON at position '' @ decimal (length text - unread))"

definition JSON_parse :: parser where
  "JSON_parse text =
     (case JSON_decode text of
        Inl unread \<Rightarrow> Inl (SyntaxError (syntaxErrorMessage text unread))
      | Inr v \<Rightarrow> Inr v)"

section \<open>A model of JSON.stringify\<close>








definition newlineIndent :: "nat \<Rightarrow> jsstring" where
  "newlineIndent n = 0x0A # replicate n 0x20"





section \<open>The extraction steps of generateFormInternal\<close>

subsection \<open>Cleaning the response text\<close>

text \<open>
  \<open>s.replace(/^```json\s*/i, '')\<close> and \<open>s.replace(/^```\s*/i, '')\<close> are only reached
  under the matching \<open>startsWith\<close> test, so each removes the marker and the white space
  after it.
\<close>

definition removeOpeningFence :: "nat \<Rightarrow> jsstring \<Rightarrow> jsstring" where
  "removeOpeningFence n s = dropWhile isWhiteSpace (drop n s)"

text \<open>
  \<open>s.replace(/\s*```$/i, '')\<close>: when the text ends in three backticks, the leftmost
  match starts at the white space that precedes them; otherwise nothing matches and the
  text is unchanged.
\<close>

definition removeClosingFence :: "jsstring \<Rightarrow> jsstring" where
  "removeClosingFence s =
     (if endsWith s (js ''```'')
      then rev (dropWhile isWhiteSpace (rev (take (length s - 3) s)))
      else s)"

definition stripFences :: "jsstring \<Rightarrow> jsstring" where
  "stripFences s =
     (if startsWith s (js ''```json'') then removeClosingFence (removeOpeningFence 7 s)
      else if startsWith s (js ''```'') then removeClosingFence (removeOpeningFence 3 s)
      else s)"

definition extractBraces :: "jsstring \<Rightarrow> jsstring" where
  "extractBraces s =
     (let firstBrace = indexOf s LBRACE;
          lastBrace = lastIndexOf s RBRACE
      in if firstBrace \<noteq> -1 \<and> lastBrace \<noteq> -1 \<and> lastBrace > firstBrace
         then substring s firstBrace (lastBrace + 1)
         else s)"

text \<open>Steps 1 to 3: the text that the primary \<open>JSON.parse\<close> receives.\<close>

definition cleanResponse :: "jsstring \<Rightarrow> jsstring" where
  "cleanResponse raw = extractBraces (stripFences (trim raw))"

subsection \<open>The fallbacks\<close>

text \<open>
  \<open>s.match(/\{[\s\S]*\}/)\<close>: the match starts at the leftmost opening brace that has
  a closing brace after it and, the star being greedy, ends at the last closing brace.
  A closing brace after a later opening brace also follows the first one, so only the
  first opening brace needs to be tried.
\<close>

definition matchBraces :: "jsstring \<Rightarrow> jsstring option" where
  "matchBraces s =
     (case dropWhile (\<lambda>c. c \<noteq> LBRACE) s of
        [] \<Rightarrow> None
      | b # rest \<Rightarrow>
          (if RBRACE \<in> set rest
           then Some (b # rev (dropWhile (\<lambda>c. c \<noteq> RBRACE) (rev rest)))
           else None))"

definition fallbackA :: "parser \<Rightarrow> jsstring \<Rightarrow> json comp" where
  "fallbackA parse jsonString =
     (case matchBraces jsonString of
        Some m \<Rightarrow> (if m \<noteq> [] then parse m
                   else Inl (Error (js ''No JSON object found with regex'')))
      | None \<Rightarrow> Inl (Error (js ''No JSON object found with regex'')))"

definition fallbackB :: "parser \<Rightarrow> jsstring \<Rightarrow> json comp" where
  "fallbackB parse jsonString =
     (let firstBrace = indexOf jsonString LBRACE;
          lastBrace = lastIndexOf jsonString RBRACE
      in if firstBrace \<noteq> -1 \<and> lastBrace \<noteq> -1 \<and> lastBrace > firstBrace
         then parse (substring jsonString firstBrace (lastBrace + 1))
         else Inl (Error (js ''Could not find JSON boundaries'')))"

text \<open>
  The brace-depth loop of fallback C. \<open>i\<close> is the loop index and \<open>cs\<close> the code units
  from \<open>i\<close> on; \<open>depth\<close> and \<open>start\<close> are the loop's variables (\<open>depth\<close> is a signed
  number and does go below zero), \<open>objs\<close> is \<open>jsonObjects\<close>.
\<close>

fun scanLoop :: "jsstring \<Rightarrow> nat \<Rightarrow> jsstring \<Rightarrow> int \<Rightarrow> int \<Rightarrow> jsstring list \<Rightarrow> jsstring list" where
  "scanLoop s i [] depth start objs = objs"
| "scanLoop s i (c # cs) depth start objs =
     (if c = LBRACE then
        scanLoop s (i + 1) cs (depth + 1) (if depth = 0 then int i else start) objs
      else if c = RBRACE then
        (if depth - 1 = 0 \<and> start \<noteq> -1
         then scanLoop s (i + 1) cs (depth - 1) (-1)
                (objs @ [substring s start (int i + 1)])
         else scanLoop s (i + 1) cs (depth - 1) start objs)
      else scanLoop s (i + 1) cs depth start objs)"

definition scanObjects :: "jsstring \<Rightarrow> jsstring list" where
  "scanObjects s = scanLoop s 0 s 0 (-1) []"

text \<open>\<open>jsonObjects.reduce((a, b) => (a.length > b.length ? a : b))\<close> on a non-empty array.\<close>

definition longer :: "jsstring \<Rightarrow> jsstring \<Rightarrow> jsstring" where
  "longer a b = (if length a > length b then a else b)"

fun largest :: "jsstring list \<Rightarrow> jsstring" where
  "largest [] = []"
| "largest (x # xs) = foldl longer x xs"

definition fallbackC :: "parser \<Rightarrow> jsstring \<Rightarrow> json comp" where
  "fallbackC parse jsonString =
     (let jsonObjects = scanObjects jsonString
      in if length jsonObjects > 0 then parse (largest jsonObjects)
         else Inl (Error (js ''No valid JSON objects found'')))"

subsection \<open>The cascade\<close>

text \<open>
  The nested \<open>try\<close>/\<open>catch\<close> blocks end either with \<open>formSchema\<close> assigned or with the
  early return of a failure object. \<open>Parsed\<close> records, beside the value, which
  \<open>JSON.parse\<close> call produced it. The \<open>console.error\<close> lines of the first \<open>catch\<close>
  (the error, the first 1000 code units of the cleaned text and its length) write to the
  log only and have no part in the result.
\<close>

datatype stage = Primary | FallbackA | FallbackB | FallbackC

datatype extraction =
    Parsed json stage
  | ParseFailed jsstring

definition parseFailureMessage :: "exn \<Rightarrow> jsstring" where
  "parseFailureMessage parseError =
     js ''Failed to parse AI response. Tried multiple parsing strategies. Error: ''
     @ message parseError @ js ''. Please try again.''"

definition extractJson :: "parser \<Rightarrow> jsstring \<Rightarrow> extraction comp" where
  "extractJson parse raw =
     (let jsonString = cleanResponse raw in
      case parse jsonString of
        Inr v \<Rightarrow> Inr (Parsed v Primary)
      | Inl parseError \<Rightarrow>
          (case fallbackA parse jsonString of
             Inr v \<Rightarrow> Inr (Parsed v FallbackA)
           | Inl _ \<Rightarrow>
               (case fallbackB parse jsonString of
                  Inr v \<Rightarrow> Inr (Parsed v FallbackB)
                | Inl _ \<Rightarrow>
                    (case fallbackC parse jsonString of
                       Inr v \<Rightarrow> Inr (Parsed v FallbackC)
                     | Inl _ \<Rightarrow> Inr (ParseFailed (parseFailureMessage parseError))))))"

section \<open>Validation\<close>

subsection \<open>Property reads, truthiness and type tests\<close>

text \<open>
  \<open>o.k\<close> on a decoded value, for the property names the validators read (\<open>formTitle\<close>,
  \<open>fields\<close>, \<open>id\<close>, \<open>label\<close>, \<open>type\<close>: none of them is a property of a string, a
  number, a boolean or an array, nor inherited by an object). Reading a property of
  \<open>null\<close> throws a TypeError; a missing property reads as \<open>undefined\<close>, here \<open>None\<close>.
\<close>

fun getProp :: "json \<Rightarrow> jsstring \<Rightarrow> json option comp" where
  "getProp JNull k =
     Inl (TypeError (js ''Cannot read properties of null (reading '' @ [0x27] @ k @ [0x27] @ js '')''))"
| "getProp (JObj members) k = Inr (map_of members k)"
| "getProp (JBool b) k = Inr None"
| "getProp (JNum n) k = Inr None"
| "getProp (JStr s) k = Inr None"
| "getProp (JArr xs) k = Inr None"

text \<open>ToBoolean: what \<open>!x\<close> negates.\<close>

fun truthy :: "json option \<Rightarrow> bool" where
  "truthy None = False"
| "truthy (Some JNull) = False"
| "truthy (Some (JBool b)) = b"
| "truthy (Some (JNum n)) = (n \<noteq> 0)"
| "truthy (Some (JStr s)) = (s \<noteq> [])"
| "truthy (Some (JArr xs)) = True"
| "truthy (Some (JObj members)) = True"

fun isArray :: "json option \<Rightarrow> bool" where
  "isArray (Some (JArr xs)) = True"
| "isArray _ = False"

text \<open>\<open>typeof x === 'object'\<close>: objects, arrays and \<open>null\<close>.\<close>

fun typeofObject :: "json \<Rightarrow> bool" where
  "typeofObject JNull = True"
| "typeofObject (JArr xs) = True"
| "typeofObject (JObj members) = True"
| "typeofObject _ = False"

text \<open>The elements a \<open>for ... of\<close> loop visits.\<close>

fun elements :: "json option \<Rightarrow> json list" where
  "elements (Some (JArr xs)) = xs"
| "elements _ = []"

text \<open>
  The loop condition \<open>!field.id || !field.label || !field.type\<close>, read left to right
  with short-circuit evaluation.
\<close>

definition fieldIncomplete :: "json \<Rightarrow> bool comp" where
  "fieldIncomplete field =
     (case getProp field (js ''id'') of
        Inl e \<Rightarrow> Inl e
      | Inr i \<Rightarrow>
          if \<not> truthy i then Inr True
          else (case getProp field (js ''label'') of
                  Inl e \<Rightarrow> Inl e
                | Inr l \<Rightarrow>
                    if \<not> truthy l then Inr True
                    else (case getProp field (js ''type'') of
                            Inl e \<Rightarrow> Inl e
                          | Inr t \<Rightarrow> Inr (\<not> truthy t))))"

subsection \<open>The check of generateFormInternal on the generated schema\<close>

text \<open>The object a server action returns: \<open>{ success: true, schema }\<close> or \<open>{ success: false, error }\<close>.\<close>

datatype result =
    Success json
  | Failure jsstring

fun checkGeneratedFields :: "json list \<Rightarrow> json \<Rightarrow> result comp" where
  "checkGeneratedFields [] formSchema = Inr (Success formSchema)"
| "checkGeneratedFields (field # rest) formSchema =
     (case fieldIncomplete field of
        Inl e \<Rightarrow> Inl e
      | Inr incomplete \<Rightarrow>
          if incomplete then Inr (Failure (js ''Invalid field structure in generated schema''))
          else checkGeneratedFields rest formSchema)"

definition validateGenerated :: "json \<Rightarrow> result comp" where
  "validateGenerated formSchema =
     (case getProp formSchema (js ''formTitle'') of
        Inl e \<Rightarrow> Inl e
      | Inr title \<Rightarrow>
          if \<not> truthy title
          then Inr (Failure (js ''Invalid form schema generated: missing formTitle or fields''))
          else (case getProp formSchema (js ''fields'') of
                  Inl e \<Rightarrow> Inl e
                | Inr fieldsProp \<Rightarrow>
                    if \<not> truthy fieldsProp
                    then Inr (Failure (js ''Invalid form schema generated: missing formTitle or fields''))
                    else if \<not> isArray fieldsProp
                    then Inr (Failure (js ''Invalid form schema generated: missing formTitle or fields''))
                    else checkGeneratedFields (elements fieldsProp) formSchema))"

text \<open>
  The outer \<open>catch\<close> of generateFormInternal turns whatever was thrown into a failure
  object that carries the error's message.
\<close>

definition catchAll :: "result comp \<Rightarrow> result" where
  "catchAll c = (case c of Inl error \<Rightarrow> Failure (message error) | Inr r \<Rightarrow> r)"

text \<open>generateFormInternal from the moment the response text is at hand.\<close>

definition generateFormFromText :: "parser \<Rightarrow> jsstring \<Rightarrow> result" where
  "generateFormFromText parse raw =
     catchAll
       (case extractJson parse raw of
          Inl e \<Rightarrow> Inl e
        | Inr (ParseFailed m) \<Rightarrow> Inr (Failure m)
        | Inr (Parsed formSchema st) \<Rightarrow> validateGenerated formSchema)"

subsection \<open>validateFormSchema, the check on an imported file\<close>

record validation =
  isValid :: bool
  error :: "jsstring option"

fun checkImportedFields :: "json list \<Rightarrow> validation comp" where
  "checkImportedFields [] = Inr \<lparr>isValid = True, error = None\<rparr>"
| "checkImportedFields (field # rest) =
     (case fieldIncomplete field of
        Inl e \<Rightarrow> Inl e
      | Inr incomplete \<Rightarrow>
          if incomplete
          then Inr \<lparr>isValid = False,
                    error = Some (js ''Invalid JSON file: missing required field properties'')\<rparr>
          else checkImportedFields rest)"

definition validateFormSchema :: "json \<Rightarrow> validation comp" where
  "validateFormSchema schema =
     (if \<not> truthy (Some schema)
      then Inr \<lparr>isValid = False, error = Some (js ''Invalid JSON file: not a valid object'')\<rparr>
      else if \<not> typeofObject schema
      then Inr \<lparr>isValid = False, error = Some (js ''Invalid JSON file: not a valid object'')\<rparr>
      else (case getProp schema (js ''fields'') of
              Inl e \<Rightarrow> Inl e
            | Inr fieldsProp \<Rightarrow>
                if \<not> truthy fieldsProp
                then Inr \<lparr>isValid = False, error = Some (js ''Invalid JSON file: missing fields array'')\<rparr>
                else if \<not> isArray fieldsProp
                then Inr \<lparr>isValid = False, error = Some (js ''Invalid JSON file: missing fields array'')\<rparr>
                else checkImportedFields (elements fieldsProp)))"

section \<open>Export and import on the page\<close>

text \<open>
  The part of the page's React state that export and import touch: \<open>formSchema\<close>,
  \<open>error\<close> (here \<open>pageError\<close>) and \<open>toastMessage\<close>.
\<close>

record page =
  formSchema :: "json option"
  pageError :: "jsstring option"
  toastMessage :: "jsstring option"




section \<open>Notions used to state the properties\<close>

text \<open>The value has a \<open>formTitle\<close> that \<open>!\<close> does not reject.\<close>

definition hasTitle :: "json \<Rightarrow> bool" where
  "hasTitle v = (case getProp v (js ''formTitle'') of Inl e \<Rightarrow> False | Inr t \<Rightarrow> truthy t)"

text \<open>validateFormSchema returned, and with \<open>isValid: true\<close>.\<close>

definition accepted :: "validation comp \<Rightarrow> bool" where
  "accepted c = (case c of Inl e \<Rightarrow> False | Inr r \<Rightarrow> isValid r)"

text \<open>The check on the generated schema came through to \<open>{ success: true, schema }\<close>.\<close>

definition succeeded :: "result comp \<Rightarrow> bool" where
  "succeeded c = (case c of Inl e \<Rightarrow> False | Inr (Success s) \<Rightarrow> True | Inr (Failure m) \<Rightarrow> False)"

text \<open>The text lies around \<open>core\<close> with no opening brace before it and no closing brace after it.\<close>

definition framed :: "jsstring \<Rightarrow> jsstring \<Rightarrow> bool" where
  "framed core s = (\<exists>pre post. s = pre @ core @ post \<and> LBRACE \<notin> set pre \<and> RBRACE \<notin> set post)"

text \<open>
  With the brace depth at \<open>d \<ge> 1\<close>, the raw braces of \<open>cs\<close> bring the depth to zero at
  its last code unit and not before.
\<close>

fun closesAt :: "int \<Rightarrow> jsstring \<Rightarrow> bool" where
  "closesAt d [] = False"
| "closesAt d (c # cs) =
     (if c = LBRACE then closesAt (d + 1) cs
      else if c = RBRACE then (if d = 1 then cs = [] else closesAt (d - 1) cs)
      else closesAt d cs)"

definition balancedSpan :: "jsstring \<Rightarrow> bool" where
  "balancedSpan t = (case t of [] \<Rightarrow> False | c # cs \<Rightarrow> c = LBRACE \<and> closesAt 1 cs)"



text \<open>A number may end before \<open>rest\<close>: no digit, point or exponent mark follows.\<close>

fun endsNumber :: "jsstring \<Rightarrow> bool" where
  "endsNumber [] = True"
| "endsNumber (c # cs) = (\<not> isDigit c \<and> c \<noteq> 0x2E \<and> c \<noteq> 0x65 \<and> c \<noteq> 0x45)"










section \<open>Facts about the string operations and the cleaning steps\<close>

lemma indexOf_absent: "c \<notin> set s \<Longrightarrow> indexOf s c = -1"
  by (induction s) auto

lemma indexOf_first: "c \<notin> set pre \<Longrightarrow> indexOf (pre @ c # rest) c = int (length pre)"
  by (induction pre) (auto simp: Let_def)

lemma lastIndexOf_absent: "c \<notin> set s \<Longrightarrow> lastIndexOf s c = -1"
  by (induction s) (auto simp: Let_def)

lemma lastIndexOf_last: "c \<notin> set post \<Longrightarrow> lastIndexOf (pre @ c # post) c = int (length pre)"
  by (induction pre) (auto simp: Let_def lastIndexOf_absent)

lemma substring_middle:
  "substring (pre @ core @ post) (int (length pre)) (int (length pre + length core)) = core"
proof -
  let ?s = "pre @ core @ post"
  have a: "min (max (int (length pre)) 0) (int (length ?s)) = int (length pre)" by simp
  have b: "min (max (int (length pre + length core)) 0) (int (length ?s))
           = int (length pre + length core)" by simp
  show ?thesis unfolding substring_def Let_def a b by simp
qed

lemma framedI: "s = pre @ core @ post \<Longrightarrow> LBRACE \<notin> set pre \<Longrightarrow> RBRACE \<notin> set post \<Longrightarrow> framed core s"
  unfolding framed_def by blast

lemma extractBraces_framed:
  assumes "framed (LBRACE # mid @ [RBRACE]) s"
  shows "extractBraces s = LBRACE # mid @ [RBRACE]"
proof -
  from assms obtain pre post where s: "s = pre @ (LBRACE # mid @ [RBRACE]) @ post"
    and pre: "LBRACE \<notin> set pre" and post: "RBRACE \<notin> set post"
    unfolding framed_def by blast
  have f: "indexOf s LBRACE = int (length pre)"
    using indexOf_first[OF pre, of "mid @ [RBRACE] @ post"] by (simp add: s)
  have "s = (pre @ LBRACE # mid) @ RBRACE # post" by (simp add: s)
  then have l: "lastIndexOf s RBRACE = int (length pre + length mid + 1)"
    using lastIndexOf_last[OF post, of "pre @ LBRACE # mid"] by simp
  have "substring s (int (length pre)) (int (length pre + length (LBRACE # mid @ [RBRACE])))
        = LBRACE # mid @ [RBRACE]"
    unfolding s by (rule substring_middle)
  then show ?thesis
    by (simp add: extractBraces_def f l Let_def add.commute add.left_commute)
qed

lemma framed_dropWhile:
  assumes "framed (LBRACE # mid) s" "\<not> P LBRACE"
  shows "framed (LBRACE # mid) (dropWhile P s)"
proof -
  from assms obtain pre post where s: "s = pre @ (LBRACE # mid) @ post"
    and pre: "LBRACE \<notin> set pre" and post: "RBRACE \<notin> set post"
    unfolding framed_def by blast
  have "dropWhile P s = dropWhile P pre @ (LBRACE # mid) @ post"
    using assms(2) by (simp add: s dropWhile_append)
  moreover have "LBRACE \<notin> set (dropWhile P pre)"
    using pre set_dropWhileD by fastforce
  ultimately show ?thesis using post by (rule framedI)
qed

lemma framed_drop:
  assumes "framed (LBRACE # mid) s" "take n s = f" "length f = n" "LBRACE \<notin> set f"
  shows "framed (LBRACE # mid) (drop n s)"
proof -
  from assms obtain pre post where s: "s = pre @ (LBRACE # mid) @ post"
    and pre: "LBRACE \<notin> set pre" and post: "RBRACE \<notin> set post"
    unfolding framed_def by blast
  have "n \<le> length pre"
  proof (rule ccontr)
    assume "\<not> n \<le> length pre"
    then have "length pre < n" by simp
    then have "take n s ! length pre = s ! length pre" by simp
    also have "\<dots> = LBRACE" by (simp add: s nth_append)
    finally have "f ! length pre = LBRACE" using assms(2) by simp
    moreover have "length pre < length f" using \<open>length pre < n\<close> assms(3) by simp
    ultimately show False using assms(4) nth_mem by metis
  qed
  then have "drop n s = drop n pre @ (LBRACE # mid) @ post" by (simp add: s)
  moreover have "LBRACE \<notin> set (drop n pre)" using pre in_set_dropD by fastforce
  ultimately show ?thesis using post by (rule framedI)
qed

lemma framed_dropWhile_end:
  assumes "framed (mid @ [RBRACE]) s" "\<not> P RBRACE"
  shows "framed (mid @ [RBRACE]) (rev (dropWhile P (rev s)))"
proof -
  from assms obtain pre post where s: "s = pre @ (mid @ [RBRACE]) @ post"
    and pre: "LBRACE \<notin> set pre" and post: "RBRACE \<notin> set post"
    unfolding framed_def by blast
  have "rev s = rev post @ (RBRACE # rev mid) @ rev pre" by (simp add: s)
  then have "dropWhile P (rev s) = dropWhile P (rev post) @ (RBRACE # rev mid) @ rev pre"
    using assms(2) by (simp add: dropWhile_append)
  then have "rev (dropWhile P (rev s)) = pre @ (mid @ [RBRACE]) @ rev (dropWhile P (rev post))"
    by simp
  moreover have "RBRACE \<notin> set (rev (dropWhile P (rev post)))"
    using post set_dropWhileD by fastforce
  ultimately show ?thesis using pre unfolding framed_def by blast
qed

lemma framed_take:
  assumes "framed (mid @ [RBRACE]) s" "drop (length s - n) s = f" "length f = n" "n \<le> length s" "RBRACE \<notin> set f"
  shows "framed (mid @ [RBRACE]) (take (length s - n) s)"
proof -
  from assms obtain pre post where s: "s = pre @ (mid @ [RBRACE]) @ post"
    and pre: "LBRACE \<notin> set pre" and post: "RBRACE \<notin> set post"
    unfolding framed_def by blast
  have "n \<le> length post"
  proof (rule ccontr)
    assume "\<not> n \<le> length post"
    then have lt: "length post < n" by simp
    let ?i = "length pre + length mid"
    have i: "length s - n \<le> ?i" using lt assms(4) by (simp add: s)
    have "drop (length s - n) s = drop (length s - n) (pre @ mid) @ RBRACE # post"
      using i by (simp add: s)
    then have "RBRACE \<in> set (drop (length s - n) s)" by simp
    then show False using assms(2,5) by simp
  qed
  define front where "front = pre @ mid @ [RBRACE]"
  have sf: "s = front @ post" by (simp add: s front_def)
  have "length s - n = length front + (length post - n)"
    using \<open>n \<le> length post\<close> by (simp add: sf)
  then have "take (length s - n) s = front @ take (length post - n) post"
    by (simp add: sf)
  then have "take (length s - n) s = pre @ (mid @ [RBRACE]) @ take (length post - n) post"
    by (simp add: front_def)
  moreover have "RBRACE \<notin> set (take (length post - n) post)" using post in_set_takeD by fastforce
  ultimately show ?thesis using pre unfolding framed_def by blast
qed


lemma not_ws_braces [simp]: "\<not> isWhiteSpace LBRACE" "\<not> isWhiteSpace RBRACE"
  by (simp_all add: isWhiteSpace_def LBRACE_def RBRACE_def)

lemma trim_framed:
  assumes "framed (LBRACE # mid @ [RBRACE]) s"
  shows "framed (LBRACE # mid @ [RBRACE]) (trim s)"
proof -
  have "framed (LBRACE # (mid @ [RBRACE])) (dropWhile isWhiteSpace s)"
    using assms by (intro framed_dropWhile) simp_all
  then have "framed ((LBRACE # mid) @ [RBRACE]) (dropWhile isWhiteSpace s)" by simp
  then have "framed ((LBRACE # mid) @ [RBRACE]) (rev (dropWhile isWhiteSpace (rev (dropWhile isWhiteSpace s))))"
    by (rule framed_dropWhile_end) simp
  then show ?thesis by (simp add: trim_def)
qed

lemma removeOpeningFence_framed:
  assumes "framed (LBRACE # mid) s" "startsWith s f" "length f = n" "LBRACE \<notin> set f"
  shows "framed (LBRACE # mid) (removeOpeningFence n s)"
proof -
  from assms(2,3) have "take n s = f" by (simp add: startsWith_def)
  with assms have "framed (LBRACE # mid) (drop n s)" by (intro framed_drop) simp_all
  then show ?thesis unfolding removeOpeningFence_def by (rule framed_dropWhile) simp
qed

lemma removeClosingFence_framed:
  assumes "framed (mid @ [RBRACE]) s"
  shows "framed (mid @ [RBRACE]) (removeClosingFence s)"
proof (cases "endsWith s (js ''```'')")
  case False
  with assms show ?thesis by (simp add: removeClosingFence_def)
next
  case True
  have len: "length (js ''```'') = 3" by (simp add: js_def)
  from True have "drop (length s - length (js ''```'')) s = js ''```''"
    "length (js ''```'') \<le> length s"
    by (simp_all add: endsWith_def)
  then have "drop (length s - 3) s = js ''```''" "3 \<le> length s"
    unfolding len by simp_all
  with assms have "framed (mid @ [RBRACE]) (take (length s - 3) s)"
    by (intro framed_take[where f = "js ''```''"]) (simp_all add: js_def RBRACE_def)
  then have "framed (mid @ [RBRACE]) (rev (dropWhile isWhiteSpace (rev (take (length s - 3) s))))"
    by (rule framed_dropWhile_end) simp
  with True show ?thesis by (simp add: removeClosingFence_def)
qed

lemma stripFences_framed:
  assumes "framed (LBRACE # mid @ [RBRACE]) s"
  shows "framed (LBRACE # mid @ [RBRACE]) (stripFences s)"
proof -
  have open7: "framed (LBRACE # mid @ [RBRACE]) (removeOpeningFence 7 s)"
    if "startsWith s (js ''```json'')"
    using assms that by (intro removeOpeningFence_framed[where f = "js ''```json''"])
      (simp_all add: js_def LBRACE_def)
  have open3: "framed (LBRACE # mid @ [RBRACE]) (removeOpeningFence 3 s)"
    if "startsWith s (js ''```'')"
    using assms that by (intro removeOpeningFence_framed[where f = "js ''```''"])
      (simp_all add: js_def LBRACE_def)
  have close: "framed (LBRACE # mid @ [RBRACE]) (removeClosingFence t)"
    if "framed (LBRACE # mid @ [RBRACE]) t" for t
    using removeClosingFence_framed[of "LBRACE # mid" t] that by simp
  show ?thesis
    using assms open7 open3 close by (simp add: stripFences_def)
qed

lemma cleanResponse_framed:
  "framed (LBRACE # mid @ [RBRACE]) raw \<Longrightarrow> cleanResponse raw = LBRACE # mid @ [RBRACE]"
  unfolding cleanResponse_def
  by (intro extractBraces_framed stripFences_framed trim_framed)

lemma matchBraces_object: "matchBraces (LBRACE # mid @ [RBRACE]) = Some (LBRACE # mid @ [RBRACE])"
  by (simp add: matchBraces_def)

lemma fallbackA_object: "fallbackA parse (LBRACE # mid @ [RBRACE]) = parse (LBRACE # mid @ [RBRACE])"
  by (simp add: fallbackA_def matchBraces_object)

lemma framed_self: "framed core core"
  unfolding framed_def by (rule exI[of _ "[]"], rule exI[of _ "[]"]) simp

lemma fallbackB_object: "fallbackB parse (LBRACE # mid @ [RBRACE]) = parse (LBRACE # mid @ [RBRACE])"
proof -
  let ?c = "LBRACE # mid @ [RBRACE]"
  have f: "indexOf ?c LBRACE = 0" by simp
  have l: "lastIndexOf ((LBRACE # mid) @ RBRACE # []) RBRACE = int (length (LBRACE # mid))"
    by (rule lastIndexOf_last) simp
  have "substring ([] @ ?c @ []) (int (length ([]::jsstring))) (int (length ([]::jsstring) + length ?c)) = ?c"
    by (rule substring_middle)
  then have s: "substring ?c 0 (2 + int (length mid)) = ?c" by (simp add: add.commute)
  from l have l': "lastIndexOf ?c RBRACE = int (length mid) + 1" by simp
  show ?thesis unfolding fallbackB_def Let_def f l' using s by simp
qed


lemma scanLoop_span:
  "1 \<le> d \<Longrightarrow> start \<noteq> -1 \<Longrightarrow> closesAt d cs \<Longrightarrow>
   scanLoop s i (cs @ rest) d start objs =
   scanLoop s (i + length cs) rest 0 (-1) (objs @ [substring s start (int (i + length cs))])"
proof (induction cs arbitrary: i d)
  case Nil
  then show ?case by simp
next
  case (Cons c cs)
  show ?case
  proof (cases "c = LBRACE")
    case True
    with Cons.prems have "closesAt (d + 1) cs" by simp
    with Cons.IH[of "d + 1" "i + 1"] Cons.prems True show ?thesis by simp
  next
    case False
    show ?thesis
    proof (cases "c = RBRACE")
      case True
      show ?thesis
      proof (cases "d = 1")
        case True
        with Cons.prems \<open>c = RBRACE\<close> False have "cs = []" by simp
        with True \<open>c = RBRACE\<close> False Cons.prems show ?thesis by (simp add: add.commute)
      next
        case d: False
        with Cons.prems \<open>c = RBRACE\<close> False have "closesAt (d - 1) cs" "1 \<le> d - 1" by simp_all
        with Cons.IH[of "d - 1" "i + 1"] Cons.prems True False d show ?thesis by simp
      qed
    next
      case nr: False
      with Cons.prems False have "closesAt d cs" by simp
      with Cons.IH[of d "i + 1"] Cons.prems False nr show ?thesis by simp
    qed
  qed
qed

lemma scanLoop_plain:
  "LBRACE \<notin> set m \<Longrightarrow> RBRACE \<notin> set m \<Longrightarrow>
   scanLoop s i (m @ rest) d start objs = scanLoop s (i + length m) rest d start objs"
  by (induction m arbitrary: i) auto

lemma closesAt_last: "closesAt d cs \<Longrightarrow> cs \<noteq> [] \<and> last cs = RBRACE"
  by (induction d cs rule: closesAt.induct) (auto split: if_splits)

lemma balancedSpan_shape:
  assumes "balancedSpan t"
  obtains b where "t = LBRACE # b @ [RBRACE]" "closesAt 1 (b @ [RBRACE])"
proof -
  from assms obtain cs where t: "t = LBRACE # cs" and c: "closesAt 1 cs"
    by (auto simp: balancedSpan_def split: list.splits)
  from closesAt_last[OF c] have "cs = butlast cs @ [RBRACE]"
    by (metis append_butlast_last_id)
  with t c that[of "butlast cs"] show thesis by metis
qed

lemma scanObjects_two:
  assumes "balancedSpan o1" "balancedSpan o2" "LBRACE \<notin> set mid" "RBRACE \<notin> set mid"
  shows "scanObjects (o1 @ mid @ o2) = [o1, o2]"
proof -
  from assms(1) obtain b1 where o1: "o1 = LBRACE # b1" and c1: "closesAt 1 b1"
    by (auto simp: balancedSpan_def split: list.splits)
  from assms(2) obtain b2 where o2: "o2 = LBRACE # b2" and c2: "closesAt 1 b2"
    by (auto simp: balancedSpan_def split: list.splits)
  let ?s = "o1 @ mid @ o2"
  have sub1: "substring ?s 0 (int (length o1)) = o1"
    using substring_middle[of "[]" o1 "mid @ o2"] by simp
  have sub2: "substring ?s (int (length o1 + length mid)) (int (length ?s)) = o2"
    using substring_middle[of "o1 @ mid" o2 "[]"] by (simp add: add.assoc)
  have "scanObjects ?s = scanLoop ?s 0 (LBRACE # (b1 @ (mid @ o2))) 0 (-1) []"
    by (simp add: scanObjects_def o1)
  also have "\<dots> = scanLoop ?s 1 (b1 @ (mid @ o2)) 1 0 []" by simp
  also have "\<dots> = scanLoop ?s (1 + length b1) (mid @ o2) 0 (-1)
                      ([] @ [substring ?s 0 (int (1 + length b1))])"
    using c1 by (intro scanLoop_span) simp_all
  also have "\<dots> = scanLoop ?s (length o1) (mid @ o2) 0 (-1) [o1]"
    using sub1 by (simp add: o1)
  also have "\<dots> = scanLoop ?s (length o1 + length mid) (LBRACE # (b2 @ [])) 0 (-1) [o1]"
    using assms(3,4) by (simp add: scanLoop_plain o2)
  also have "\<dots> = scanLoop ?s (length o1 + length mid + 1) (b2 @ []) 1
                      (int (length o1 + length mid)) [o1]"
    by simp
  also have "\<dots> = scanLoop ?s (length o1 + length mid + 1 + length b2) [] 0 (-1)
                      ([o1] @ [substring ?s (int (length o1 + length mid))
                                 (int (length o1 + length mid + 1 + length b2))])"
    using c2 by (intro scanLoop_span) simp_all
  also have "\<dots> = [o1, o2]"
    using sub2 by (simp add: o2 add.assoc)
  finally show ?thesis .
qed

lemma braces_distinct [simp]: "LBRACE \<noteq> RBRACE" "RBRACE \<noteq> LBRACE"
  by (simp_all add: LBRACE_def RBRACE_def)

lemma extractBraces_no_pair:
  assumes "RBRACE \<notin> set (dropWhile (\<lambda>c. c \<noteq> LBRACE) t)"
  shows "extractBraces t = t"
proof (cases "LBRACE \<in> set t")
  case False
  then show ?thesis by (simp add: extractBraces_def indexOf_absent)
next
  case True
  then obtain pre rest where t: "t = pre @ LBRACE # rest" and pre: "LBRACE \<notin> set pre"
    by (meson split_list_first)
  have "dropWhile (\<lambda>c. c \<noteq> LBRACE) t = LBRACE # rest"
    using pre by (auto simp: t dropWhile_append)
  with assms have rest: "RBRACE \<notin> set rest" by simp
  have f: "indexOf t LBRACE = int (length pre)" unfolding t using pre by (rule indexOf_first)
  show ?thesis
  proof (cases "RBRACE \<in> set pre")
    case False
    with rest have "RBRACE \<notin> set t" by (simp add: t)
    then show ?thesis by (simp add: extractBraces_def lastIndexOf_absent)
  next
    case True
    then obtain p1 p2 where p: "pre = p1 @ RBRACE # p2" and p2: "RBRACE \<notin> set p2"
      by (meson split_list_last)
    have t': "t = p1 @ RBRACE # (p2 @ LBRACE # rest)" by (simp add: t p)
    have "RBRACE \<notin> set (p2 @ LBRACE # rest)" using p2 rest by simp
    then have "lastIndexOf t RBRACE = int (length p1)" unfolding t' by (rule lastIndexOf_last)
    with f show ?thesis by (simp add: extractBraces_def p)
  qed
qed

lemma stripFences_no_fence: "\<not> startsWith t (js ''```'') \<Longrightarrow> stripFences t = t"
proof -
  assume a: "\<not> startsWith t (js ''```'')"
  have "\<not> startsWith t (js ''```json'')"
  proof
    assume "startsWith t (js ''```json'')"
    then have "take (length (js ''```json'')) t = js ''```json''" by (simp add: startsWith_def)
    then have "take 3 (take (length (js ''```json'')) t) = take 3 (js ''```json'')" by simp
    moreover have "take 3 (js ''```json'') = js ''```''" "length (js ''```json'') = 7"
      "length (js ''```'') = 3" by (simp_all add: js_def)
    ultimately have "take (length (js ''```'')) t = js ''```''" by simp
    with a show False by (simp add: startsWith_def)
  qed
  with a show ?thesis by (simp add: stripFences_def)
qed

lemma object_no_fence: "\<not> startsWith (LBRACE # mid) (js ''```'')"
  by (simp add: startsWith_def js_def LBRACE_def)

section \<open>Facts about the two validators and the choice of the largest candidate\<close>

lemma succeeded_simps [simp]:
  "succeeded (Inl e) = False"
  "succeeded (Inr (Failure m)) = False"
  "succeeded (Inr (Success s)) = True"
  by (simp_all add: succeeded_def)

lemma accepted_simps [simp]:
  "accepted (Inl e) = False"
  "accepted (Inr r) = isValid r"
  by (simp_all add: accepted_def)

lemma checkFields_same:
  "succeeded (checkGeneratedFields xs v) = accepted (checkImportedFields xs)"
  by (induction xs) (auto split: sum.splits)

lemma checkGenerated_schema:
  "checkGeneratedFields xs v = Inr (Success s) \<Longrightarrow> s = v"
  by (induction xs) (auto split: sum.splits if_splits)

lemma fieldIncomplete_total: "field \<noteq> JNull \<Longrightarrow> \<exists>b. fieldIncomplete field = Inr b"
  by (cases field) (auto simp: fieldIncomplete_def)

text \<open>
  Where no element is \<open>null\<close>, an element that lacks \<open>id\<close>, \<open>label\<close> or \<open>type\<close> makes
  the import check answer with its third message.
\<close>

lemma checkImported_incomplete:
  "list_all (\<lambda>f. f \<noteq> JNull) xs \<Longrightarrow> list_ex (\<lambda>f. fieldIncomplete f = Inr True) xs \<Longrightarrow>
   checkImportedFields xs =
     Inr \<lparr>isValid = False,
          error = Some (js ''Invalid JSON file: missing required field properties'')\<rparr>"
proof (induction xs)
  case Nil
  then show ?case by simp
next
  case (Cons a xs)
  then obtain b where "fieldIncomplete a = Inr b"
    using fieldIncomplete_total by fastforce
  with Cons show ?case by (cases b) auto
qed

lemma length_foldl_longer: "length x \<le> length (foldl longer x xs)"
proof (induction xs arbitrary: x)
  case Nil
  then show ?case by simp
next
  case (Cons y ys)
  have "length x \<le> length (longer x y)" by (simp add: longer_def)
  also have "\<dots> \<le> length (foldl longer (longer x y) ys)" by (rule Cons.IH)
  finally show ?case by simp
qed

lemma foldl_longer_split:
  "\<exists>pre post. x # xs = pre @ foldl longer x xs # post \<and>
      list_all (\<lambda>c. length c \<le> length (foldl longer x xs)) pre \<and>
      list_all (\<lambda>c. length c < length (foldl longer x xs)) post"
proof (induction xs arbitrary: x)
  case Nil
  show ?case by (rule exI[of _ "[]"], rule exI[of _ "[]"]) simp
next
  case (Cons y ys)
  define m where "m = foldl longer (longer x y) ys"
  have fm: "foldl longer x (y # ys) = m" by (simp add: m_def)
  from Cons.IH[of "longer x y"] obtain pre post where
    sp: "longer x y # ys = pre @ m # post" and
    le: "list_all (\<lambda>c. length c \<le> length m) pre" and
    lt: "list_all (\<lambda>c. length c < length m) post" unfolding m_def by blast
  have xm: "length (longer x y) \<le> length m" unfolding m_def by (rule length_foldl_longer)
  have "\<exists>pre' post'. x # y # ys = pre' @ m # post' \<and>
      list_all (\<lambda>c. length c \<le> length m) pre' \<and>
      list_all (\<lambda>c. length c < length m) post'"
  proof (cases "length x > length y")
    case True
    then have lx: "longer x y = x" by (simp add: longer_def)
    show ?thesis
    proof (cases pre)
      case Nil
      with sp lx have "m = x" "post = ys" by auto
      with lt True have "x # y # ys = [] @ m # (y # ys) \<and>
         list_all (\<lambda>c. length c \<le> length m) [] \<and>
         list_all (\<lambda>c. length c < length m) (y # ys)"
        by simp
      then show ?thesis by blast
    next
      case (Cons p pre')
      with sp lx have "p = x" "ys = pre' @ m # post" by auto
      with le lt True xm Cons lx have "x # y # ys = (x # y # pre') @ m # post \<and>
         list_all (\<lambda>c. length c \<le> length m) (x # y # pre') \<and>
         list_all (\<lambda>c. length c < length m) post"
        by simp
      then show ?thesis by blast
    qed
  next
    case False
    then have ly: "longer x y = y" by (simp add: longer_def)
    from sp ly le lt xm False have "x # y # ys = (x # pre) @ m # post \<and>
         list_all (\<lambda>c. length c \<le> length m) (x # pre) \<and>
         list_all (\<lambda>c. length c < length m) post"
      by simp
    then show ?thesis by blast
  qed
  then show ?case unfolding fm .
qed

section \<open>Facts about the decoder and the encoder\<close>







































lemma not_digit_punct [simp]:
  "\<not> isDigit 0x2C" "\<not> isDigit 0x5D" "\<not> isDigit 0x7D" "\<not> isDigit 0x0A"
  by (simp_all add: isDigit_def)

lemma endsNumber_sep [simp]: "endsNumber (0x2C # xs)" "endsNumber (newlineIndent n @ xs)"
  "endsNumber (0x5D # xs)" "endsNumber (0x7D # xs)"
  by (simp_all add: newlineIndent_def isDigit_def)






















section \<open>The properties\<close>

subsection \<open>Extraction\<close>

text \<open>
  C1. Extraction never lets an exception out: whatever the decoder does, \<open>extractJson\<close>
  returns, and it returns either a decoded value or a failure whose message is not
  empty. When all four decoding attempts fail the outcome is the failure; for the empty
  text that is the case as soon as the decoder rejects the empty text.
\<close>

theorem extractJson_never_raises:
  "(\<exists>x. extractJson parse raw = Inr x) \<and>
   (\<forall>m. extractJson parse raw = Inr (ParseFailed m) \<longrightarrow> m \<noteq> []) \<and>
   (isl (parse (cleanResponse raw)) \<and> isl (fallbackA parse (cleanResponse raw)) \<and>
    isl (fallbackB parse (cleanResponse raw)) \<and> isl (fallbackC parse (cleanResponse raw))
      \<longrightarrow> (\<exists>m. extractJson parse raw = Inr (ParseFailed m) \<and> m \<noteq> [])) \<and>
   (isl (parse []) \<longrightarrow> (\<exists>m. extractJson parse [] = Inr (ParseFailed m) \<and> m \<noteq> []))"
proof -
  have nonempty: "parseFailureMessage e \<noteq> []" for e
    by (simp add: parseFailureMessage_def js_def)
  have returns: "\<exists>x. extractJson parse raw = Inr x"
    by (simp add: extractJson_def Let_def split: sum.splits)
  have failed: "m \<noteq> []" if "extractJson parse raw = Inr (ParseFailed m)" for m
    using that nonempty by (auto simp: extractJson_def Let_def split: sum.splits)
  have all_fail: "\<exists>m. extractJson parse s = Inr (ParseFailed m) \<and> m \<noteq> []"
    if "isl (parse (cleanResponse s))" "isl (fallbackA parse (cleanResponse s))"
       "isl (fallbackB parse (cleanResponse s))" "isl (fallbackC parse (cleanResponse s))" for s
    using that nonempty by (auto simp: extractJson_def Let_def isl_def)
  have clean: "cleanResponse [] = []"
    by (simp add: cleanResponse_def trim_def stripFences_def startsWith_def extractBraces_def js_def)
  have empty: "\<exists>m. extractJson parse [] = Inr (ParseFailed m) \<and> m \<noteq> []" if "isl (parse [])"
    using that
    by (intro all_fail)
       (simp_all add: clean fallbackA_def matchBraces_def fallbackB_def fallbackC_def scanObjects_def)
  from returns failed all_fail[of raw] empty show ?thesis by blast
qed

theorem extractJson_never_raises_witness:
  \<open>extractJson JSON_parse (js ''}{ oops {'') =
     Inr (ParseFailed (js ''Failed to parse AI response. Tried multiple parsing strategies. Error: Unexpected token } in JSON at position 0. Please try again.'')) \<and>
   extractJson JSON_parse [] =
     Inr (ParseFailed (js ''Failed to parse AI response. Tried multiple parsing strategies. Error: Unexpected end of JSON input. Please try again.''))\<close>
proof -
  have a: \<open>isl (JSON_parse (cleanResponse (js ''}{ oops {'')))\<close>
    \<open>isl (fallbackA JSON_parse (cleanResponse (js ''}{ oops {'')))\<close>
    \<open>isl (fallbackB JSON_parse (cleanResponse (js ''}{ oops {'')))\<close>
    \<open>isl (fallbackC JSON_parse (cleanResponse (js ''}{ oops {'')))\<close>
    \<open>isl (JSON_parse [])\<close>
    by code_simp+
  have e1: \<open>extractJson JSON_parse (js ''}{ oops {'') =
     Inr (ParseFailed (js ''Failed to parse AI response. Tried multiple parsing strategies. Error: Unexpected token } in JSON at position 0. Please try again.''))\<close>
    by code_simp
  have e2: \<open>extractJson JSON_parse [] =
     Inr (ParseFailed (js ''Failed to parse AI response. Tried multiple parsing strategies. Error: Unexpected end of JSON input. Please try again.''))\<close>
    by code_simp
  from extractJson_never_raises[of JSON_parse \<open>js ''}{ oops {''\<close>] a e1 e2
  show ?thesis by simp
qed

text \<open>
  C3 (as the code has it). The brace extraction of step 3 runs before the first
  \<open>JSON.parse\<close>, so the text that is decoded first is the cleaned text, not the trimmed
  one. Where the trimmed text opens with \<open>{\<close> and ends with \<open>}\<close> (every JSON object
  text), or carries no fence and has no \<open>}\<close> after its first \<open>{\<close>, cleaning leaves it as
  it is: if the decoder accepts it, the value is returned from the primary decode and no
  fallback runs.
\<close>

theorem object_text_decoded_directly:
  assumes "trim raw = t" and "parse t = Inr v"
      and "(\<exists>mid. t = LBRACE # mid @ [RBRACE]) \<or>
           (\<not> startsWith t (js ''```'') \<and> RBRACE \<notin> set (dropWhile (\<lambda>c. c \<noteq> LBRACE) t))"
  shows "cleanResponse raw = t \<and> extractJson parse raw = Inr (Parsed v Primary)"
proof -
  have "extractBraces (stripFences t) = t"
    using assms(3)
  proof
    assume "\<exists>mid. t = LBRACE # mid @ [RBRACE]"
    then obtain mid where t: "t = LBRACE # mid @ [RBRACE]" by blast
    have "stripFences t = t" unfolding t by (rule stripFences_no_fence) (rule object_no_fence)
    moreover have "extractBraces t = t" unfolding t by (rule extractBraces_framed) (rule framed_self)
    ultimately show ?thesis by simp
  next
    assume "\<not> startsWith t (js ''```'') \<and> RBRACE \<notin> set (dropWhile (\<lambda>c. c \<noteq> LBRACE) t)"
    then show ?thesis by (simp add: stripFences_no_fence extractBraces_no_pair)
  qed
  then have c: "cleanResponse raw = t" by (simp add: cleanResponse_def assms(1))
  then show ?thesis by (simp add: extractJson_def assms(2))
qed

theorem object_text_decoded_directly_witness:
  \<open>trim (js '' {"a":1} '') = js ''{"a":1}'' \<and>
   cleanResponse (js '' {"a":1} '') = js ''{"a":1}'' \<and>
   extractJson JSON_parse (js '' {"a":1} '') = Inr (Parsed (JObj [(js ''a'', JNum 1)]) Primary)\<close>
proof -
  have t: \<open>trim (js '' {"a":1} '') = js ''{"a":1}''\<close> by code_simp
  have p: \<open>JSON_parse (js ''{"a":1}'') = Inr (JObj [(js ''a'', JNum 1)])\<close> by code_simp
  have s: \<open>(\<exists>mid. js ''{"a":1}'' = LBRACE # mid @ [RBRACE]) \<or>
           (\<not> startsWith (js ''{"a":1}'') (js ''```'') \<and>
            RBRACE \<notin> set (dropWhile (\<lambda>c. c \<noteq> LBRACE) (js ''{"a":1}'')))\<close>
    by (rule disjI1, rule exI[of _ \<open>js ''"a":1''\<close>]) (simp add: js_def LBRACE_def RBRACE_def)
  from object_text_decoded_directly
         [of \<open>js '' {"a":1} ''\<close> \<open>js ''{"a":1}''\<close> JSON_parse, OF t p s] t
  show ?thesis by simp
qed

text \<open>
  C3 as stated fails: \<open>[{"a":1},{"b":2}]\<close> is valid JSON with nothing around it, yet the
  text handed to the first decode is \<open>{"a":1},{"b":2}\<close>, which is rejected, and the value
  that comes back is the object \<open>{"b":2}\<close>, found by the depth scan.
\<close>

theorem array_text_not_decoded_directly:
  \<open>trim (js ''[{"a":1},{"b":2}]'') = js ''[{"a":1},{"b":2}]'' \<and>
   JSON_parse (js ''[{"a":1},{"b":2}]'') =
     Inr (JArr [JObj [(js ''a'', JNum 1)], JObj [(js ''b'', JNum 2)]]) \<and>
   cleanResponse (js ''[{"a":1},{"b":2}]'') = js ''{"a":1},{"b":2}'' \<and>
   extractJson JSON_parse (js ''[{"a":1},{"b":2}]'') =
     Inr (Parsed (JObj [(js ''b'', JNum 2)]) FallbackC)\<close>
  by code_simp

text \<open>
  C4 (as the code has it). Let the text be \<open>pre o1 mid o2 post\<close> where \<open>o1\<close> and \<open>o2\<close>
  are complete objects by the count of raw braces, \<open>pre\<close> has no \<open>{\<close>, \<open>post\<close> has no
  \<open>}\<close> and \<open>mid\<close> has neither, and let the two have different lengths. If the span from
  the first \<open>{\<close> to the last \<open>}\<close> is not decodable as a whole and the longer object is,
  extraction returns the longer object's value, from the depth scan.
\<close>

theorem two_objects_longer_recovered:
  assumes "raw = pre @ o1 @ mid @ o2 @ post"
    and "LBRACE \<notin> set pre" "RBRACE \<notin> set post"
    and "LBRACE \<notin> set mid" "RBRACE \<notin> set mid"
    and "balancedSpan o1" "balancedSpan o2"
    and "length o1 \<noteq> length o2"
    and "parse (o1 @ mid @ o2) = Inl e"
    and "parse (longer o1 o2) = Inr v"
  shows "extractJson parse raw = Inr (Parsed v FallbackC) \<and>
         length (longer o1 o2) = max (length o1) (length o2)"
proof -
  from assms(6) obtain b1 where o1: "o1 = LBRACE # b1"
    by (auto simp: balancedSpan_def split: list.splits)
  from assms(7) obtain b2 where o2: "o2 = LBRACE # b2 @ [RBRACE]"
    by (rule balancedSpan_shape)
  define core where "core = o1 @ mid @ o2"
  have core: "core = LBRACE # (b1 @ mid @ LBRACE # b2) @ [RBRACE]"
    by (simp add: core_def o1 o2)
  have "raw = pre @ core @ post" by (simp add: assms(1) core_def)
  then have "framed core raw" using assms(2,3) by (rule framedI)
  then have clean: "cleanResponse raw = core"
    unfolding core by (rule cleanResponse_framed)
  have p: "parse core = Inl e" using assms(9) by (simp add: core_def)
  have a: "fallbackA parse core = Inl e" unfolding core using p fallbackA_object core by metis
  have b: "fallbackB parse core = Inl e" unfolding core using p fallbackB_object core by metis
  have "scanObjects core = [o1, o2]"
    unfolding core_def using assms(6,7,4,5) by (rule scanObjects_two)
  then have c: "fallbackC parse core = Inr v"
    using assms(10) by (simp add: fallbackC_def)
  have "extractJson parse raw = Inr (Parsed v FallbackC)"
    by (simp add: extractJson_def clean p a b c)
  moreover have "length (longer o1 o2) = max (length o1) (length o2)"
    by (simp add: longer_def max_def)
  ultimately show ?thesis by simp
qed

theorem two_objects_longer_recovered_witness:
  \<open>extractJson JSON_parse (js ''noise {"a":1} more {"formTitle":"X","fields":[]} end'') =
     Inr (Parsed (JObj [(js ''formTitle'', JStr (js ''X'')), (js ''fields'', JArr [])]) FallbackC) \<and>
   length (longer (js ''{"a":1}'') (js ''{"formTitle":"X","fields":[]}'')) = 29\<close>
proof -
  have raw: \<open>js ''noise {"a":1} more {"formTitle":"X","fields":[]} end'' =
     js ''noise '' @ js ''{"a":1}'' @ js '' more '' @ js ''{"formTitle":"X","fields":[]}'' @ js '' end''\<close>
    by (simp add: js_def)
  have h: \<open>LBRACE \<notin> set (js ''noise '')\<close> \<open>RBRACE \<notin> set (js '' end'')\<close>
     \<open>LBRACE \<notin> set (js '' more '')\<close> \<open>RBRACE \<notin> set (js '' more '')\<close>
    by (simp_all add: js_def LBRACE_def RBRACE_def)
  have b: \<open>balancedSpan (js ''{"a":1}'')\<close> \<open>balancedSpan (js ''{"formTitle":"X","fields":[]}'')\<close>
    by code_simp+
  have l: \<open>length (js ''{"a":1}'') \<noteq> length (js ''{"formTitle":"X","fields":[]}'')\<close>
    by (simp add: js_def)
  have p: \<open>JSON_parse (js ''{"a":1}'' @ js '' more '' @ js ''{"formTitle":"X","fields":[]}'') =
     Inl (SyntaxError (js ''Unexpected token m in JSON at position 8''))\<close>
    by code_simp
  have q: \<open>JSON_parse (longer (js ''{"a":1}'') (js ''{"formTitle":"X","fields":[]}'')) =
     Inr (JObj [(js ''formTitle'', JStr (js ''X'')), (js ''fields'', JArr [])])\<close>
    by code_simp
  have m: \<open>max (length (js ''{"a":1}'')) (length (js ''{"formTitle":"X","fields":[]}'')) = 29\<close>
    by (simp add: js_def)
  from two_objects_longer_recovered[OF raw h b l p q] m show ?thesis by simp
qed

text \<open>
  C4 as stated fails: in \<open>noise {"a":1} more {"formTitle":"}","fields":[]} end\<close> both
  objects are decodable and the second is the longer one, but the \<open>}\<close> inside its title
  ends the scan's candidate early and extraction fails.
\<close>

theorem brace_in_string_defeats_scan:
  \<open>JSON_parse (js ''{"a":1}'') = Inr (JObj [(js ''a'', JNum 1)]) \<and>
   JSON_parse (js ''{"formTitle":"}","fields":[]}'') =
     Inr (JObj [(js ''formTitle'', JStr (js ''}'')), (js ''fields'', JArr [])]) \<and>
   scanObjects (cleanResponse (js ''noise {"a":1} more {"formTitle":"}","fields":[]} end'')) =
     [js ''{"a":1}'', js ''{"formTitle":"}''] \<and>
   extractJson JSON_parse (js ''noise {"a":1} more {"formTitle":"}","fields":[]} end'') =
     Inr (ParseFailed (js ''Failed to parse AI response. Tried multiple parsing strategies. Error: Unexpected token m in JSON at position 8. Please try again.''))\<close>
  by code_simp




text \<open>
  C8 (as the code has it). When the scan has found candidates, the one decoded is
  \<open>largest\<close> of them: none is longer, and every candidate found after it is strictly
  shorter. Among candidates of the greatest length it is the last one found.
\<close>

theorem largest_is_last_longest:
  assumes "scanObjects s = objs" "objs \<noteq> []"
  shows "fallbackC parse s = parse (largest objs) \<and>
    (\<exists>pre post. objs = pre @ largest objs # post \<and>
      list_all (\<lambda>c. length c \<le> length (largest objs)) pre \<and>
      list_all (\<lambda>c. length c < length (largest objs)) post)"
proof -
  from assms(2) obtain x xs where "objs = x # xs" by (cases objs) auto
  with assms foldl_longer_split[of x xs] show ?thesis
    by (simp add: fallbackC_def)
qed

theorem largest_is_last_longest_witness:
  \<open>fallbackC JSON_parse (js ''{"a":1} {"bc":2} {"de":3} {}'') =
     JSON_parse (largest [js ''{"a":1}'', js ''{"bc":2}'', js ''{"de":3}'', js ''{}'']) \<and>
   largest [js ''{"a":1}'', js ''{"bc":2}'', js ''{"de":3}'', js ''{}''] = js ''{"de":3}''\<close>
proof -
  have s: \<open>scanObjects (js ''{"a":1} {"bc":2} {"de":3} {}'') =
           [js ''{"a":1}'', js ''{"bc":2}'', js ''{"de":3}'', js ''{}'']\<close>
    by code_simp
  have n: \<open>[js ''{"a":1}'', js ''{"bc":2}'', js ''{"de":3}'', js ''{}''] \<noteq> []\<close> by simp
  have l: \<open>largest [js ''{"a":1}'', js ''{"bc":2}'', js ''{"de":3}'', js ''{}''] = js ''{"de":3}''\<close>
    by code_simp
  from largest_is_last_longest[OF s n, of JSON_parse] l show ?thesis by simp
qed

text \<open>
  C8 as stated fails on ties: in \<open>{"a":1} {"b":2}\<close> both candidates have seven code
  units, and the second one found is selected, not the first.
\<close>

theorem tie_selects_last:
  \<open>scanObjects (js ''{"a":1} {"b":2}'') = [js ''{"a":1}'', js ''{"b":2}''] \<and>
   length (js ''{"a":1}'') = length (js ''{"b":2}'') \<and>
   largest (scanObjects (js ''{"a":1} {"b":2}'')) = js ''{"b":2}'' \<and>
   largest (scanObjects (js ''{"a":1} {"b":2}'')) \<noteq> js ''{"a":1}''\<close>
  by code_simp

text \<open>
  C10. The depth scan counts raw braces and knows nothing of string literals. In
  \<open>{"a":1} {"b":"}"}\<close> the object \<open>{"b":"}"}\<close> is decodable, but the scan ends its
  candidate at the \<open>}\<close> inside the string; that candidate, \<open>{"b":"}\<close>, is the one selected,
  its decode fails, and extraction fails.
\<close>

theorem string_brace_truncates_candidate:
  \<open>JSON_parse (js ''{"b":"}"}'') = Inr (JObj [(js ''b'', JStr (js ''}''))]) \<and>
   cleanResponse (js ''{"a":1} {"b":"}"}'') = js ''{"a":1} '' @ js ''{"b":"}"}'' \<and>
   scanObjects (cleanResponse (js ''{"a":1} {"b":"}"}'')) = [js ''{"a":1}'', js ''{"b":"}''] \<and>
   largest (scanObjects (cleanResponse (js ''{"a":1} {"b":"}"}''))) = js ''{"b":"}'' \<and>
   JSON_parse (js ''{"b":"}'') = Inl (SyntaxError (js ''Unexpected end of JSON input'')) \<and>
   extractJson JSON_parse (js ''{"a":1} {"b":"}"}'') =
     Inr (ParseFailed (js ''Failed to parse AI response. Tried multiple parsing strategies. Error: Unexpected token { in JSON at position 8. Please try again.''))\<close>
  by code_simp

subsection \<open>Validation\<close>

text \<open>
  C2 (as the code has it). The two checks are not the same: validateFormSchema never
  looks at \<open>formTitle\<close>. The check on the generated schema succeeds exactly when
  validateFormSchema answers \<open>isValid: true\<close> and the value has a \<open>formTitle\<close> that is
  not falsy; so whatever the generation path accepts the import path accepts too.
\<close>

theorem validators_agree_up_to_title:
  "succeeded (validateGenerated v) = (accepted (validateFormSchema v) \<and> hasTitle v)"
  by (cases v)
     (auto simp: validateGenerated_def validateFormSchema_def hasTitle_def checkFields_same)

text \<open>
  C2 as stated fails: an object with a well-formed \<open>fields\<close> array and no \<open>formTitle\<close>
  passes validateFormSchema and fails the check on the generated schema.
\<close>

theorem validators_differ_without_title:
  "accepted (validateFormSchema
      (JObj [(js ''fields'', JArr [JObj [(js ''id'', JStr (js ''a'')),
                                          (js ''label'', JStr (js ''A'')),
                                          (js ''type'', JStr (js ''text''))]])])) \<and>
   \<not> succeeded (validateGenerated
      (JObj [(js ''fields'', JArr [JObj [(js ''id'', JStr (js ''a'')),
                                          (js ''label'', JStr (js ''A'')),
                                          (js ''type'', JStr (js ''text''))]])]))"
  by (simp add: validateGenerated_def validateFormSchema_def fieldIncomplete_def js_def)

text \<open>
  C6 (as the code has it). On the generation path a value whose \<open>formTitle\<close> is missing
  or falsy always ends in a failure object: for \<open>null\<close> through the outer \<open>catch\<close>, for
  every other value with the message about the missing title or fields. The import path
  has no such rule.
\<close>

theorem missing_title_rejected_by_generation:
  assumes "\<not> hasTitle v"
  shows "(\<exists>m. catchAll (validateGenerated v) = Failure m) \<and>
         (v \<noteq> JNull \<longrightarrow> validateGenerated v =
            Inr (Failure (js ''Invalid form schema generated: missing formTitle or fields'')))"
  using assms by (cases v) (auto simp: validateGenerated_def hasTitle_def catchAll_def)

theorem missing_title_rejected_by_generation_witness:
  "\<not> hasTitle (JObj [(js ''formTitle'', JStr []), (js ''fields'', JArr [])]) \<and>
   catchAll (validateGenerated (JObj [(js ''formTitle'', JStr []), (js ''fields'', JArr [])])) =
     Failure (js ''Invalid form schema generated: missing formTitle or fields'')"
proof -
  have h: "\<not> hasTitle (JObj [(js ''formTitle'', JStr []), (js ''fields'', JArr [])])"
    by (simp add: hasTitle_def)
  from missing_title_rejected_by_generation[OF h] h show ?thesis
    by (simp add: catchAll_def)
qed

text \<open>
  C6 as stated fails on the import path: \<open>{"fields":[]}\<close> has no \<open>formTitle\<close> and
  validateFormSchema answers \<open>isValid: true\<close>.
\<close>

theorem missing_title_accepted_by_import:
  "\<not> hasTitle (JObj [(js ''fields'', JArr [])]) \<and>
   validateFormSchema (JObj [(js ''fields'', JArr [])]) = Inr \<lparr>isValid = True, error = None\<rparr>"
  by (simp add: hasTitle_def validateFormSchema_def js_def)

text \<open>
  C7. Both loops read \<open>field.id\<close> without asking whether \<open>field\<close> is \<open>null\<close>. For
  \<open>{"formTitle":"T","fields":[null]}\<close> validateFormSchema does not return at all: it
  throws a TypeError, and so does the check on the generated schema, whose caller then
  reports the TypeError's message instead of the message for an invalid field.
\<close>

theorem null_field_throws:
  "validateFormSchema (JObj [(js ''formTitle'', JStr (js ''T'')), (js ''fields'', JArr [JNull])]) =
     Inl (TypeError (js ''Cannot read properties of null (reading '' @ [0x27] @ js ''id''
                     @ [0x27] @ js '')'')) \<and>
   validateGenerated (JObj [(js ''formTitle'', JStr (js ''T'')), (js ''fields'', JArr [JNull])]) =
     Inl (TypeError (js ''Cannot read properties of null (reading '' @ [0x27] @ js ''id''
                     @ [0x27] @ js '')'')) \<and>
   catchAll (validateGenerated
       (JObj [(js ''formTitle'', JStr (js ''T'')), (js ''fields'', JArr [JNull])])) \<noteq>
     Failure (js ''Invalid field structure in generated schema'')"
  by (simp add: validateGenerated_def validateFormSchema_def fieldIncomplete_def catchAll_def js_def)

subsection \<open>Round trip\<close>



end
